theory Spec2Isabelle
  imports Complex_Main
begin

section \<open>Values, exceptions and the relational store\<close>

text \<open>
  The handlers of \<^verbatim>\<open>web/core/auth/views.py\<close> read the request body with
  \<^verbatim>\<open>request.get_json()\<close>. The parsed body is a Python value: \<open>JNull\<close> is Python's
  \<^verbatim>\<open>None\<close> (also what \<^verbatim>\<open>get_json\<close> gives for a body that is no JSON), a dict is
  an association list read with \<open>map_of\<close>. Numbers with a fraction are rationals
  (no infinities, no NaN).
\<close>

datatype json =
    JNull
  | JBool bool
  | JInt int
  | JFloat rat
  | JStr string
  | JList "json list"
  | JObj "(string \<times> json) list"

text \<open>Python's truth value of an object, as \<^verbatim>\<open>if data.get(field):\<close> tests it.\<close>

fun truthy :: "json \<Rightarrow> bool" where
  "truthy JNull = False"
| "truthy (JBool b) = b"
| "truthy (JInt i) = (i \<noteq> 0)"
| "truthy (JFloat r) = (r \<noteq> 0)"
| "truthy (JStr s) = (s \<noteq> [])"
| "truthy (JList xs) = (xs \<noteq> [])"
| "truthy (JObj kvs) = (kvs \<noteq> [])"

text \<open>
  Every exception the modelled code can raise, and the 404 of \<^verbatim>\<open>first_or_404\<close>.
  The last three are raised by the token-verification layer, before a handler runs.
\<close>

datatype error =
    NotFound
  | ZeroDivisionError
  | KeyError
  | TypeError
  | AttributeError
  | MultipleResultsFound
  | IntegrityError
  | ExpiredSignatureError
  | WrongTokenError
  | RevokedTokenError

text \<open>\<^verbatim>\<open>data.get(key)\<close>: only a dict has the method; a missing key gives \<^verbatim>\<open>None\<close>.\<close>

fun py_get :: "json \<Rightarrow> string \<Rightarrow> error + json" where
  "py_get (JObj kvs) k = Inr (case map_of kvs k of None \<Rightarrow> JNull | Some v \<Rightarrow> v)"
| "py_get _ k = Inl AttributeError"

text \<open>
  \<^verbatim>\<open>data[key]\<close> with a string key: \<^verbatim>\<open>KeyError\<close> on a dict without the key,
  \<^verbatim>\<open>TypeError\<close> on everything that is not a dict.
\<close>

fun py_getitem :: "json \<Rightarrow> string \<Rightarrow> error + json" where
  "py_getitem (JObj kvs) k = (case map_of kvs k of None \<Rightarrow> Inl KeyError | Some v \<Rightarrow> Inr v)"
| "py_getitem _ k = Inl TypeError"

text \<open>Sequencing: an exception of the first computation ends the handler.\<close>

definition raising :: "error + 'a \<Rightarrow> ('a \<Rightarrow> error + 'b) \<Rightarrow> error + 'b" where
  "raising m f = (case m of Inl e \<Rightarrow> Inl e | Inr x \<Rightarrow> f x)"

text \<open>
  The model classes (\<^verbatim>\<open>User\<close>, \<^verbatim>\<open>Order\<close>, \<^verbatim>\<open>RevokedToken\<close>) are declared in
  \<^verbatim>\<open>models.py\<close> files that are not among the sources; the records hold the columns
  the handlers read and write, taken as plain attributes. A column holds whatever Python
  value was assigned to the attribute; the column types of the schema are not modelled,
  the uniqueness of a user's email is (see the commit of a user below). \<open>u_id\<close> and \<open>o_id\<close> are the primary keys (\<^verbatim>\<open>id\<close>).
\<close>

record user =
  u_id :: nat
  first_name :: json
  last_name :: json
  email :: json
  password :: json

record order =
  o_id :: nat
  user_id :: nat
  status :: "string option"
  create_time :: nat
  lines :: "nat list"

text \<open>
  The store behind \<^verbatim>\<open>db.session\<close>: one list of rows per table, \<open>user_seq\<close> the
  next primary key of the user table, \<open>revoked\<close> the \<^verbatim>\<open>jti\<close> column of the
  \<^verbatim>\<open>RevokedToken\<close> rows. A handler that raises returns \<open>Inl\<close> and commits nothing.
\<close>

record store =
  users :: "user list"
  user_seq :: nat
  revoked :: "string list"
  orders :: "order list"

text \<open>\<^verbatim>\<open>Query.first()\<close>, \<^verbatim>\<open>Query.first_or_404()\<close> and \<^verbatim>\<open>Query.scalar()\<close> on the rows a
  query selects.\<close>

definition first :: "'a list \<Rightarrow> 'a option" where
  "first rows = (case rows of [] \<Rightarrow> None | r # _ \<Rightarrow> Some r)"

definition first_or_404 :: "'a list \<Rightarrow> error + 'a" where
  "first_or_404 rows = (case rows of [] \<Rightarrow> Inl NotFound | r # _ \<Rightarrow> Inr r)"

definition scalar :: "'a list \<Rightarrow> error + 'a option" where
  "scalar rows =
     (case rows of [] \<Rightarrow> Inr None | [r] \<Rightarrow> Inr (Some r) | _ \<Rightarrow> Inl MultipleResultsFound)"

section \<open>The order panel\<close>

text \<open>
  What a panel view returns: a rendered template with its context, or a redirect to an
  endpoint (\<^verbatim>\<open>redirect(url_for(...))\<close>).
\<close>

datatype page =
    OrdersListPage "order list"
  | OrdersInfoPage order user
  | Redirect string

text \<open>
  The query string after \<^verbatim>\<open>request.args.get(name, default=..., type=int)\<close>:
  \<open>None\<close> when the parameter is absent or is no integer (the default is used then).
\<close>

record list_args =
  page_arg :: "int option"
  per_page_arg :: "int option"

text \<open>
  \<^verbatim>\<open>orders_list\<close>. \<open>paginate\<close> is Flask-SQLAlchemy's
  \<^verbatim>\<open>query.paginate(page=, per_page=, error_out=False).items\<close>, taken as given. The
  quotient \<^verbatim>\<open>query.count() / per_page\<close> is computed and never used: what is left of
  that line is the exception on a zero divisor.
\<close>

definition orders_list ::
  "(order list \<Rightarrow> int \<Rightarrow> int \<Rightarrow> order list) \<Rightarrow> store \<Rightarrow> list_args \<Rightarrow> error + page \<times> store" where
  "orders_list paginate s args =
     (let page = (case page_arg args of None \<Rightarrow> 1 | Some p \<Rightarrow> p);
          per_page = (case per_page_arg args of None \<Rightarrow> 20 | Some p \<Rightarrow> p);
          query = sort_key create_time (orders s)
      in if per_page = 0 then Inl ZeroDivisionError
         else Inr (OrdersListPage (paginate query page per_page), s))"

definition orders_info :: "store \<Rightarrow> nat \<Rightarrow> error + page \<times> store" where
  "orders_info s order_id =
     raising (first_or_404 (filter (\<lambda>r. o_id r = order_id) (orders s))) (\<lambda>order.
     raising (first_or_404 (filter (\<lambda>u. u_id u = user_id order) (users s))) (\<lambda>user.
       Inr (OrdersInfoPage order user, s)))"

text \<open>
  Committing a changed object writes it to the rows that have its primary key;
  \<^verbatim>\<open>db.session.delete\<close> followed by the commit removes them.
\<close>

definition commit_order :: "order \<Rightarrow> order list \<Rightarrow> order list" where
  "commit_order order rows = map (\<lambda>r. if o_id r = o_id order then order else r) rows"

definition delete_order :: "order \<Rightarrow> order list \<Rightarrow> order list" where
  "delete_order order rows = filter (\<lambda>r. o_id r \<noteq> o_id order) rows"

text \<open>The \<^verbatim>\<open>if\<close>/\<^verbatim>\<open>elif\<close> of \<^verbatim>\<open>confirm_order\<close> on the loaded order.\<close>

definition toggle_status :: "order \<Rightarrow> order" where
  "toggle_status order =
     (if status order = Some ''Unfulfiled'' then order\<lparr>status := Some ''Fulfiled''\<rparr>
      else if status order = Some ''Fulfiled'' then order\<lparr>status := Some ''Unfulfiled''\<rparr>
      else order)"

definition confirm_order :: "store \<Rightarrow> nat \<Rightarrow> error + page \<times> store" where
  "confirm_order s order_id =
     raising (first_or_404 (filter (\<lambda>r. o_id r = order_id) (orders s))) (\<lambda>order.
       Inr (Redirect ''ecommerce_panel.orders_list'',
            s\<lparr>orders := commit_order (toggle_status order) (orders s)\<rparr>))"

definition order_delete :: "store \<Rightarrow> nat \<Rightarrow> error + page \<times> store" where
  "order_delete s order_id =
     raising (first_or_404 (filter (\<lambda>r. o_id r = order_id) (orders s))) (\<lambda>order.
       Inr (Redirect ''ecommerce_panel.orders_list'',
            s\<lparr>orders := delete_order order (orders s)\<rparr>))"

section \<open>The authentication API\<close>

text \<open>
  What a REST handler returns: the JSON object and the status code (200 when the
  handler returns the object alone).
\<close>

record response =
  body :: "(string \<times> json) list"
  status_code :: nat

text \<open>
  What the handlers call and the sources do not define: \<^verbatim>\<open>check_data\<close> and
  \<^verbatim>\<open>bad_request\<close> of \<^verbatim>\<open>BaseResource\<close> (\<^verbatim>\<open>web/core/base.py\<close>), the password
  setter, \<^verbatim>\<open>check_password\<close> and \<^verbatim>\<open>access_dict\<close> of \<^verbatim>\<open>User\<close>, and the token
  constructors of the JWT extension. They are parameters of every handler.
\<close>

record api =
  check_data :: "json \<Rightarrow> string list \<Rightarrow> bool"
  bad_request :: response
  hash_password :: "json \<Rightarrow> json"
  check_password :: "user \<Rightarrow> json \<Rightarrow> bool"
  access_dict :: "user \<Rightarrow> json"
  create_access_token :: "json \<Rightarrow> string"
  create_refresh_token :: "json \<Rightarrow> string"

text \<open>
  Modelled from the spec: \<^verbatim>\<open>BaseResource.check_data\<close> and
  \<^verbatim>\<open>BaseResource.bad_request\<close>, whose module is missing. The spec: "malformed/missing
  required fields produce a generic invalid form failure", "missing required field
  \<open>\<rightarrow>\<close> fixed 400-style message"; the handlers' docstrings give the message.
\<close>

definition BaseResource_check_data :: "json \<Rightarrow> string list \<Rightarrow> bool" where
  "BaseResource_check_data data required =
     (case data of
        JObj kvs \<Rightarrow> list_all (\<lambda>field. map_of kvs field \<noteq> None) required
      | _ \<Rightarrow> False)"

definition BaseResource_bad_request :: response where
  "BaseResource_bad_request =
     \<lparr>body = [(''message'', JStr ''Unvalid form submitted'')], status_code = 400\<rparr>"

text \<open>The \<^verbatim>\<open>User\<close> object of the docstring: \<^verbatim>\<open>id\<close>, \<^verbatim>\<open>first_name\<close>,
  \<^verbatim>\<open>last_name\<close>, \<^verbatim>\<open>email\<close>.\<close>

definition user_dict :: "user \<Rightarrow> json" where
  "user_dict u =
     JObj [(''id'', JInt (int (u_id u))), (''first_name'', first_name u),
           (''last_name'', last_name u), (''email'', email u)]"

text \<open>
  Modelled from the spec: the schema of the user table, whose declaration (\<^verbatim>\<open>models.py\<close>)
  is missing. The spec has one user per email ("conflict (duplicate email \<open>\<rightarrow>\<close> 409)",
  "fails with a conflict condition if the email is already registered"), and
  \<^verbatim>\<open>LoginApi.post\<close> reads the row of an email with \<^verbatim>\<open>.scalar()\<close>: the email column is
  unique. \<^verbatim>\<open>db.session.commit()\<close> raises \<^verbatim>\<open>IntegrityError\<close> and stores nothing when
  the row it writes would share its email with another row; otherwise a changed object
  is written to the rows that have its primary key, and an added object becomes a new
  row.
\<close>

definition email_taken :: "user \<Rightarrow> user list \<Rightarrow> bool" where
  "email_taken u rows = (\<exists>r\<in>set rows. u_id r \<noteq> u_id u \<and> email r = email u)"

definition commit_user :: "user \<Rightarrow> user list \<Rightarrow> error + user list" where
  "commit_user u rows =
     (if email_taken u rows then Inl IntegrityError
      else Inr (map (\<lambda>r. if u_id r = u_id u then u else r) rows))"

definition add_user :: "user \<Rightarrow> user list \<Rightarrow> error + user list" where
  "add_user u rows =
     (if \<exists>r\<in>set rows. email r = email u then Inl IntegrityError else Inr (rows @ [u]))"

text \<open>
  The user table as the schema keeps it: primary keys and emails are unique, and the key
  sequence is ahead of every key in use.
\<close>

definition valid_store :: "store \<Rightarrow> bool" where
  "valid_store s =
     (distinct (map u_id (users s)) \<and> distinct (map email (users s)) \<and>
      (\<forall>u\<in>set (users s). u_id u < user_seq s))"

subsection \<open>Registration\<close>

definition already_exists :: response where
  "already_exists =
     \<lparr>body = [(''message'', JStr ''A user with this email already exists.'')],
      status_code = 409\<rparr>"

text \<open>
  \<^verbatim>\<open>User(password=..., email=..., first_name=..., last_name=...)\<close>, added and
  committed: the row gets the next primary key, the password goes through the setter.
  After the lookup with \<^verbatim>\<open>.first()\<close> has found no row with the email, the commit of the
  new row cannot break the uniqueness of the email.
\<close>

definition new_user :: "api \<Rightarrow> nat \<Rightarrow> json \<Rightarrow> json \<Rightarrow> json \<Rightarrow> json \<Rightarrow> user" where
  "new_user self pk pw em fname lname =
     \<lparr>u_id = pk, first_name = fname, last_name = lname, email = em,
      password = hash_password self pw\<rparr>"

definition RegistrationApi_post :: "api \<Rightarrow> store \<Rightarrow> json \<Rightarrow> error + response \<times> store" where
  "RegistrationApi_post self s data =
     (if \<not> check_data self data [''password'', ''email''] then Inr (bad_request self, s)
      else
        raising (py_getitem data ''password'') (\<lambda>pw.
        raising (py_getitem data ''email'') (\<lambda>em.
        raising (py_get data ''first_name'') (\<lambda>fname.
        raising (py_get data ''last_name'') (\<lambda>lname.
          if first (filter (\<lambda>u. email u = em) (users s)) \<noteq> None
          then Inr (already_exists, s)
          else
            (let u = new_user self (user_seq s) pw em fname lname
             in raising (add_user u (users s)) (\<lambda>rows.
                  Inr (\<lparr>body = [(''message'', JStr ''Successfully registered''),
                                (''access_token'', JStr (create_access_token self (email u))),
                                (''refresh_token'', JStr (create_refresh_token self (email u)))],
                        status_code = 200\<rparr>,
                       s\<lparr>users := rows, user_seq := Suc (user_seq s)\<rparr>))))))))"

subsection \<open>Login\<close>

text \<open>
  The two results of \<^verbatim>\<open>LoginApi.post\<close> after the lookup: the dict with status 401 of
  its last statement, and the dict \<^verbatim>\<open>obj\<close> it builds for a user whose password
  matches.
\<close>

definition not_correct :: response where
  "not_correct =
     \<lparr>body = [(''message'', JStr ''Username or password is not correct'')],
      status_code = 401\<rparr>"

definition login_ok :: "api \<Rightarrow> user \<Rightarrow> response" where
  "login_ok self u =
     (let obj = [(''message'', JStr ''Successfully logined''),
                 (''access_token'', JStr (create_access_token self (email u))),
                 (''refresh_token'', JStr (create_refresh_token self (email u)))];
          access = access_dict self u
      in \<lparr>body = (if truthy access then obj @ [(''access'', access)] else obj),
          status_code = 200\<rparr>)"

definition LoginApi_post :: "api \<Rightarrow> store \<Rightarrow> json \<Rightarrow> error + response \<times> store" where
  "LoginApi_post self s data =
     (if \<not> check_data self data [''email'', ''password''] then Inr (bad_request self, s)
      else
        raising (py_getitem data ''password'') (\<lambda>pw.
        raising (py_getitem data ''email'') (\<lambda>em.
        raising (scalar (filter (\<lambda>u. email u = em) (users s))) (\<lambda>found.
          (case found of
             None \<Rightarrow> Inr (not_correct, s)
           | Some u \<Rightarrow>
               if check_password self u pw then Inr (login_ok self u, s)
               else Inr (not_correct, s))))))"

subsection \<open>Profile\<close>

definition ProfileApi_get :: "store \<Rightarrow> user \<Rightarrow> error + response \<times> store" where
  "ProfileApi_get s current_user =
     Inr (\<lparr>body = [(''user'', user_dict current_user)], status_code = 200\<rparr>, s)"

text \<open>\<^verbatim>\<open>setattr(current_user, field, value)\<close> for the four names the loop runs over.\<close>

definition setattr_user :: "api \<Rightarrow> user \<Rightarrow> string \<Rightarrow> json \<Rightarrow> user" where
  "setattr_user self u field v =
     (if field = ''first_name'' then u\<lparr>first_name := v\<rparr>
      else if field = ''last_name'' then u\<lparr>last_name := v\<rparr>
      else if field = ''email'' then u\<lparr>email := v\<rparr>
      else if field = ''password'' then u\<lparr>password := hash_password self v\<rparr>
      else u)"

text \<open>The loop \<^verbatim>\<open>for field in fields: if data.get(field): setattr(..., data[field])\<close>
  over the keys of \<^verbatim>\<open>fields\<close>, in the order the dict literal lists them.\<close>

fun put_fields :: "api \<Rightarrow> json \<Rightarrow> string list \<Rightarrow> user \<Rightarrow> error + user" where
  "put_fields self data [] u = Inr u"
| "put_fields self data (field # rest) u =
     raising (py_get data field) (\<lambda>t.
       if truthy t
       then raising (py_getitem data field) (\<lambda>v.
              put_fields self data rest (setattr_user self u field v))
       else put_fields self data rest u)"

text \<open>
  \<^verbatim>\<open>ProfileApi.put\<close>; \<open>current_user\<close> is the row the token layer loaded. Building
  the \<^verbatim>\<open>fields\<close> dict calls \<^verbatim>\<open>data.get\<close> four times, which raises on a body that is
  no dict. \<^verbatim>\<open>db.session.commit()\<close> comes before the response is built, and the
  handler catches nothing: a commit that raises ends it.
\<close>

definition ProfileApi_put :: "api \<Rightarrow> store \<Rightarrow> user \<Rightarrow> json \<Rightarrow> error + response \<times> store" where
  "ProfileApi_put self s current_user data =
     raising (py_get data ''first_name'') (\<lambda>_.
     raising (py_get data ''last_name'') (\<lambda>_.
     raising (py_get data ''email'') (\<lambda>_.
     raising (py_get data ''password'') (\<lambda>_.
     raising (put_fields self data [''first_name'', ''last_name'', ''email'', ''password'']
                current_user) (\<lambda>u.
     raising (commit_user u (users s)) (\<lambda>rows.
       Inr (\<lparr>body = [(''message'', JStr ''Profile successfully updated''),
                      (''user'', user_dict u)],
              status_code = 200\<rparr>,
            s\<lparr>users := rows\<rparr>)))))))"

subsection \<open>Tokens, logout and refresh\<close>

text \<open>
  The claims of a decoded token (\<^verbatim>\<open>get_raw_jwt()\<close>): its identifier, the identity it
  was issued for, its type (\<^verbatim>\<open>'access'\<close> or \<^verbatim>\<open>'refresh'\<close>), and whether its
  lifetime is over at the time of the request.
\<close>

record jwt =
  jti :: string
  identity :: json
  token_type :: string
  expired :: bool

text \<open>
  Modelled from the spec: \<^verbatim>\<open>RevokedToken.add\<close> (\<^verbatim>\<open>models.py\<close> is missing) and the
  token-verification layer behind \<^verbatim>\<open>jwt_required\<close> and
  \<^verbatim>\<open>jwt_refresh_token_required\<close>, with the revocation lookup it is configured with
  (\<^verbatim>\<open>JWT_BLACKLIST_ENABLED = True\<close>, checks on \<^verbatim>\<open>['access', 'refresh']\<close>). The spec:
  "records a token identifier (jti) once a token is logged out; existence of a row for a
  given jti invalidates that token on subsequent use. Append-only"; "token errors
  (expired/revoked/invalid/needs-refresh \<open>\<rightarrow>\<close> 401/422 with a fixed message, produced by
  the token-verification layer, not the application)".
\<close>

definition RevokedToken_add :: "string \<Rightarrow> store \<Rightarrow> store" where
  "RevokedToken_add j s = s\<lparr>revoked := revoked s @ [j]\<rparr>"

definition verify_jwt :: "string \<Rightarrow> store \<Rightarrow> jwt \<Rightarrow> error + unit" where
  "verify_jwt required s tok =
     (if expired tok then Inl ExpiredSignatureError
      else if token_type tok \<noteq> required then Inl WrongTokenError
      else if jti tok \<in> set (revoked s) then Inl RevokedTokenError
      else Inr ())"

definition jwt_required :: "store \<Rightarrow> jwt \<Rightarrow> (error + 'a) \<Rightarrow> error + 'a" where
  "jwt_required s tok view = raising (verify_jwt ''access'' s tok) (\<lambda>_. view)"

definition jwt_refresh_token_required :: "store \<Rightarrow> jwt \<Rightarrow> (error + 'a) \<Rightarrow> error + 'a" where
  "jwt_refresh_token_required s tok view = raising (verify_jwt ''refresh'' s tok) (\<lambda>_. view)"

text \<open>The handlers, as written in \<^verbatim>\<open>views.py\<close>.\<close>

definition LogoutApi_post :: "store \<Rightarrow> jwt \<Rightarrow> error + response \<times> store" where
  "LogoutApi_post s raw_jwt =
     Inr (\<lparr>body = [(''message'', JStr ''Access token has been revoked'')], status_code = 200\<rparr>,
          RevokedToken_add (jti raw_jwt) s)"

definition LogoutRefreshApi_post :: "store \<Rightarrow> jwt \<Rightarrow> error + response \<times> store" where
  "LogoutRefreshApi_post s raw_jwt =
     Inr (\<lparr>body = [(''message'', JStr ''Refresh token has been revoked'')], status_code = 200\<rparr>,
          RevokedToken_add (jti raw_jwt) s)"

definition RefreshTokenApi_post :: "api \<Rightarrow> store \<Rightarrow> jwt \<Rightarrow> error + response \<times> store" where
  "RefreshTokenApi_post self s raw_jwt =
     Inr (\<lparr>body = [(''access_token'', JStr (create_access_token self (identity raw_jwt)))],
           status_code = 200\<rparr>, s)"

text \<open>
  The routes with their \<^verbatim>\<open>method_decorators\<close>: the token of the request is verified
  first, then the handler runs. \<open>current_user\<close> is the row the token layer loads for
  the token's identity.
\<close>

definition LogoutApi :: "store \<Rightarrow> jwt \<Rightarrow> error + response \<times> store" where
  "LogoutApi s tok = jwt_required s tok (LogoutApi_post s tok)"

definition LogoutRefreshApi :: "store \<Rightarrow> jwt \<Rightarrow> error + response \<times> store" where
  "LogoutRefreshApi s tok = jwt_refresh_token_required s tok (LogoutRefreshApi_post s tok)"

definition RefreshTokenApi :: "api \<Rightarrow> store \<Rightarrow> jwt \<Rightarrow> error + response \<times> store" where
  "RefreshTokenApi self s tok =
     jwt_refresh_token_required s tok (RefreshTokenApi_post self s tok)"

definition ProfileApi_get_route :: "store \<Rightarrow> jwt \<Rightarrow> user \<Rightarrow> error + response \<times> store" where
  "ProfileApi_get_route s tok current_user = jwt_required s tok (ProfileApi_get s current_user)"

definition ProfileApi_put_route ::
  "api \<Rightarrow> store \<Rightarrow> jwt \<Rightarrow> user \<Rightarrow> json \<Rightarrow> error + response \<times> store" where
  "ProfileApi_put_route self s tok current_user data =
     jwt_required s tok (ProfileApi_put self s current_user data)"

section \<open>Requests, one after another\<close>

text \<open>
  \<open>request self s s'\<close>: some request to one of the routes above is answered in store
  \<open>s\<close> and leaves store \<open>s'\<close>. A request whose handler raises commits nothing, so it
  is no step; a sequence of requests is the reflexive transitive closure.
\<close>

inductive request :: "api \<Rightarrow> store \<Rightarrow> store \<Rightarrow> bool" for self :: api where
  register: "RegistrationApi_post self s data = Inr (r, s') \<Longrightarrow> request self s s'"
| login: "LoginApi_post self s data = Inr (r, s') \<Longrightarrow> request self s s'"
| logout: "LogoutApi s tok = Inr (r, s') \<Longrightarrow> request self s s'"
| logout_refresh: "LogoutRefreshApi s tok = Inr (r, s') \<Longrightarrow> request self s s'"
| refresh: "RefreshTokenApi self s tok = Inr (r, s') \<Longrightarrow> request self s s'"
| profile_get: "ProfileApi_get_route s tok cu = Inr (r, s') \<Longrightarrow> request self s s'"
| profile_put: "ProfileApi_put_route self s tok cu data = Inr (r, s') \<Longrightarrow> request self s s'"
| list: "orders_list paginate s args = Inr (p, s') \<Longrightarrow> request self s s'"
| info: "orders_info s order_id = Inr (p, s') \<Longrightarrow> request self s s'"
| confirm: "confirm_order s order_id = Inr (p, s') \<Longrightarrow> request self s s'"
| delete: "order_delete s order_id = Inr (p, s') \<Longrightarrow> request self s s'"

section \<open>What a request body supplies\<close>

text \<open>
  The value a body gives for a field that is "present and truthy" in it, in the words of
  the claim about the profile update; \<open>None\<close> for a field that is omitted or falsy.
\<close>

definition supplied :: "(string \<times> json) list \<Rightarrow> string \<Rightarrow> json option" where
  "supplied kvs field =
     (case map_of kvs field of None \<Rightarrow> None | Some v \<Rightarrow> if truthy v then Some v else None)"

section \<open>Concrete data for the examples\<close>

text \<open>
  Flask-SQLAlchemy 2's \<^verbatim>\<open>paginate(..., error_out=False).items\<close>: a page below 1 is
  page 1, a negative page size is 20, then \<^verbatim>\<open>LIMIT per_page OFFSET (page - 1) * per_page\<close>.
  It only serves to run \<open>orders_list\<close> on an example; every theorem about
  \<open>orders_list\<close> holds for any \<open>paginate\<close>.
\<close>

definition paginate_items :: "order list \<Rightarrow> int \<Rightarrow> int \<Rightarrow> order list" where
  "paginate_items rows page per_page =
     (let page = (if page < 1 then 1 else page);
          per_page = (if per_page < 0 then 20 else per_page)
      in take (nat per_page) (drop (nat ((page - 1) * per_page)) rows))"

definition demo_api :: api where
  "demo_api =
     \<lparr>check_data = BaseResource_check_data,
      bad_request = BaseResource_bad_request,
      hash_password = (\<lambda>v. JList [JStr ''hashed'', v]),
      check_password = (\<lambda>u v. password u = JList [JStr ''hashed'', v]),
      access_dict = (\<lambda>u. JNull),
      create_access_token = (\<lambda>i. ''access-token''),
      create_refresh_token = (\<lambda>i. ''refresh-token'')\<rparr>"

definition alice :: user where
  "alice = \<lparr>u_id = 1, first_name = JStr ''Alice'', last_name = JNull,
            email = JStr ''alice@example.org'',
            password = JList [JStr ''hashed'', JStr ''wonderland'']\<rparr>"

definition bob :: user where
  "bob = \<lparr>u_id = 2, first_name = JStr ''Bob'', last_name = JStr ''Builder'',
          email = JStr ''bob@example.org'',
          password = JList [JStr ''hashed'', JStr ''canwefixit'']\<rparr>"

definition demo_order :: order where
  "demo_order = \<lparr>o_id = 7, user_id = 1, status = Some ''Unfulfiled'', create_time = 100,
                  lines = [11, 12]\<rparr>"

definition demo_store :: store where
  "demo_store = \<lparr>users = [alice, bob], user_seq = 3, revoked = [], orders = [demo_order]\<rparr>"

definition carol_form :: json where
  "carol_form = JObj [(''email'', JStr ''carol@example.org''), (''password'', JStr ''s3cret'')]"

definition carol :: user where
  "carol = \<lparr>u_id = 3, first_name = JNull, last_name = JNull,
            email = JStr ''carol@example.org'',
            password = JList [JStr ''hashed'', JStr ''s3cret'']\<rparr>"

definition alice_again :: json where
  "alice_again = JObj [(''email'', JStr ''alice@example.org''), (''password'', JStr ''other'')]"

definition alice_wrong :: json where
  "alice_wrong = JObj [(''email'', JStr ''alice@example.org''), (''password'', JStr ''guess'')]"

definition nobody_form :: json where
  "nobody_form = JObj [(''email'', JStr ''nobody@example.org''), (''password'', JStr ''guess'')]"

definition bob_form :: "(string \<times> json) list" where
  "bob_form = [(''first_name'', JStr ''Robert''), (''last_name'', JStr []),
               (''password'', JStr ''yeswecan''), (''is_admin'', JBool True)]"

definition bob_takes_alice :: "(string \<times> json) list" where
  "bob_takes_alice = [(''email'', JStr ''alice@example.org'')]"

definition bob_moves :: "(string \<times> json) list" where
  "bob_moves = [(''email'', JStr ''robert@example.org'')]"

definition robert_takes_alice :: "(string \<times> json) list" where
  "robert_takes_alice = [(''first_name'', JStr ''Robert''), (''email'', JStr ''alice@example.org'')]"


definition no_password :: json where
  "no_password = JObj [(''email'', JStr ''dave@example.org'')]"


section \<open>Properties of the order panel\<close>

lemma first_or_404_filter_Inr:
  "first_or_404 (filter P rows) = Inr r \<Longrightarrow> r \<in> set rows \<and> P r"
  by (auto simp: first_or_404_def split: list.splits dest!: filter_eq_ConsD)

lemma first_or_404_Inl: "first_or_404 rows = Inl e \<Longrightarrow> e = NotFound \<and> rows = []"
  by (auto simp: first_or_404_def split: list.splits)

lemma toggle_status_twice: "toggle_status (toggle_status order) = order"
  by (cases order) (auto simp: toggle_status_def)

lemma o_id_toggle_status: "o_id (toggle_status order) = o_id order"
  by (simp add: toggle_status_def)

lemma first_or_404_commit_order:
  assumes "first_or_404 (filter (\<lambda>r. o_id r = k) rows) = Inr order" and "o_id order' = k"
  shows "first_or_404 (filter (\<lambda>r. o_id r = k) (commit_order order' rows)) = Inr order'"
  using assms
proof (induction rows)
  case Nil
  then show ?case by (simp add: first_or_404_def)
next
  case (Cons a rows)
  then show ?case by (auto simp: first_or_404_def commit_order_def)
qed

text \<open>
  C4. For every order that \<^verbatim>\<open>confirm_order\<close> finds, whatever its status: the first
  toggle redirects and stores the toggled order, the second toggle redirects and stores
  the order as it was, so the status is back at its original value. The toggle maps
  \<^verbatim>\<open>'Unfulfiled'\<close> to \<^verbatim>\<open>'Fulfiled'\<close>, \<^verbatim>\<open>'Fulfiled'\<close> to \<^verbatim>\<open>'Unfulfiled'\<close> and
  leaves an order with any other status (also none) as it is.
\<close>

theorem confirm_order_twice:
  assumes "first_or_404 (filter (\<lambda>r. o_id r = order_id) (orders s)) = Inr order"
  shows "\<exists>s1 s2.
           confirm_order s order_id = Inr (Redirect ''ecommerce_panel.orders_list'', s1) \<and>
           first_or_404 (filter (\<lambda>r. o_id r = order_id) (orders s1)) = Inr (toggle_status order) \<and>
           confirm_order s1 order_id = Inr (Redirect ''ecommerce_panel.orders_list'', s2) \<and>
           first_or_404 (filter (\<lambda>r. o_id r = order_id) (orders s2)) = Inr order \<and>
           (status order = Some ''Unfulfiled'' \<longrightarrow> status (toggle_status order) = Some ''Fulfiled'') \<and>
           (status order = Some ''Fulfiled'' \<longrightarrow> status (toggle_status order) = Some ''Unfulfiled'') \<and>
           (status order \<noteq> Some ''Unfulfiled'' \<and> status order \<noteq> Some ''Fulfiled''
              \<longrightarrow> toggle_status order = order)"
proof -
  have k: "o_id order = order_id"
    using first_or_404_filter_Inr [OF assms] by simp
  let ?s1 = "s\<lparr>orders := commit_order (toggle_status order) (orders s)\<rparr>"
  let ?s2 = "?s1\<lparr>orders := commit_order (toggle_status (toggle_status order)) (orders ?s1)\<rparr>"
  have c1: "confirm_order s order_id = Inr (Redirect ''ecommerce_panel.orders_list'', ?s1)"
    using assms by (simp add: confirm_order_def raising_def)
  have f1: "first_or_404 (filter (\<lambda>r. o_id r = order_id) (orders ?s1)) = Inr (toggle_status order)"
    using first_or_404_commit_order [OF assms, of "toggle_status order"] k
    by (simp add: o_id_toggle_status)
  have c2: "confirm_order ?s1 order_id = Inr (Redirect ''ecommerce_panel.orders_list'', ?s2)"
    using f1 by (simp add: confirm_order_def raising_def)
  have f2: "first_or_404 (filter (\<lambda>r. o_id r = order_id) (orders ?s2)) = Inr order"
    using first_or_404_commit_order [OF f1, of "toggle_status (toggle_status order)"] k
    by (simp add: o_id_toggle_status toggle_status_twice)
  have t: "(status order = Some ''Unfulfiled'' \<longrightarrow> status (toggle_status order) = Some ''Fulfiled'') \<and>
           (status order = Some ''Fulfiled'' \<longrightarrow> status (toggle_status order) = Some ''Unfulfiled'') \<and>
           (status order \<noteq> Some ''Unfulfiled'' \<and> status order \<noteq> Some ''Fulfiled''
              \<longrightarrow> toggle_status order = order)"
    by (simp add: toggle_status_def)
  from c1 f1 c2 f2 t show ?thesis by blast
qed

theorem confirm_order_twice_witness:
  "first_or_404 (filter (\<lambda>r. o_id r = 7) (orders demo_store)) = Inr demo_order \<and>
   status (toggle_status demo_order) = Some ''Fulfiled'' \<and>
   (\<exists>s1 s2.
      confirm_order demo_store 7 = Inr (Redirect ''ecommerce_panel.orders_list'', s1) \<and>
      first_or_404 (filter (\<lambda>r. o_id r = 7) (orders s1)) = Inr (toggle_status demo_order) \<and>
      confirm_order s1 7 = Inr (Redirect ''ecommerce_panel.orders_list'', s2) \<and>
      first_or_404 (filter (\<lambda>r. o_id r = 7) (orders s2)) = Inr demo_order)"
proof -
  have h: "first_or_404 (filter (\<lambda>r. o_id r = 7) (orders demo_store)) = Inr demo_order"
    by (simp add: first_or_404_def demo_store_def demo_order_def)
  have st: "status demo_order = Some ''Unfulfiled''"
    by (simp add: demo_order_def)
  from confirm_order_twice [OF h] st h show ?thesis by auto
qed

section \<open>What a request leaves of the store\<close>

lemma RegistrationApi_post_frame:
  "RegistrationApi_post self s data = Inr (r, s') \<Longrightarrow>
     revoked s' = revoked s \<and> orders s' = orders s"
  by (auto simp: RegistrationApi_post_def raising_def Let_def add_user_def
           split: if_splits sum.splits)

lemma LoginApi_post_frame: "LoginApi_post self s data = Inr (r, s') \<Longrightarrow> s' = s"
  by (auto simp: LoginApi_post_def raising_def split: if_splits sum.splits option.splits)

lemma ProfileApi_put_frame:
  "ProfileApi_put self s cu data = Inr (r, s') \<Longrightarrow>
     revoked s' = revoked s \<and> orders s' = orders s"
  by (auto simp: ProfileApi_put_def raising_def commit_user_def split: sum.splits if_splits)

lemma verified_frame:
  "jwt_required s tok view = Inr x \<Longrightarrow> view = Inr x"
  "jwt_refresh_token_required s tok view = Inr x \<Longrightarrow> view = Inr x"
  by (auto simp: jwt_required_def jwt_refresh_token_required_def raising_def split: sum.splits)

lemma panel_frame:
  "orders_list paginate s args = Inr (p, s') \<Longrightarrow> s' = s"
  "orders_info s k = Inr (p, s') \<Longrightarrow> s' = s"
  by (auto simp: orders_list_def orders_info_def raising_def Let_def split: if_splits sum.splits)

lemma confirm_order_frame:
  "confirm_order s k = Inr (p, s') \<Longrightarrow>
     revoked s' = revoked s \<and> o_id ` set (orders s') \<subseteq> o_id ` set (orders s)"
  by (auto simp: confirm_order_def raising_def commit_order_def toggle_status_def
           split: sum.splits if_splits dest!: first_or_404_filter_Inr)

lemma order_delete_frame:
  "order_delete s k = Inr (p, s') \<Longrightarrow>
     revoked s' = revoked s \<and> o_id ` set (orders s') \<subseteq> o_id ` set (orders s)"
  by (auto simp: order_delete_def raising_def delete_order_def split: sum.splits)

lemma request_frame:
  "request self s s' \<Longrightarrow>
     set (revoked s) \<subseteq> set (revoked s') \<and> o_id ` set (orders s') \<subseteq> o_id ` set (orders s)"
proof (induction rule: request.induct)
  case (register s data r s')
  then show ?case using RegistrationApi_post_frame by fastforce
next
  case (login s data r s')
  then show ?case using LoginApi_post_frame by fastforce
next
  case (logout s tok r s')
  then show ?case
    by (auto simp: LogoutApi_def LogoutApi_post_def RevokedToken_add_def dest!: verified_frame)
next
  case (logout_refresh s tok r s')
  then show ?case
    by (auto simp: LogoutRefreshApi_def LogoutRefreshApi_post_def RevokedToken_add_def
             dest!: verified_frame)
next
  case (refresh s tok r s')
  then show ?case
    by (auto simp: RefreshTokenApi_def RefreshTokenApi_post_def dest!: verified_frame)
next
  case (profile_get s tok cu r s')
  then show ?case
    by (auto simp: ProfileApi_get_route_def ProfileApi_get_def dest!: verified_frame)
next
  case (profile_put s tok cu data r s')
  then show ?case
    by (auto simp: ProfileApi_put_route_def dest!: verified_frame ProfileApi_put_frame)
next
  case (list paginate s args p s')
  then show ?case by (auto dest!: panel_frame)
next
  case (info s order_id p s')
  then show ?case by (auto dest!: panel_frame)
next
  case (confirm s order_id p s')
  then show ?case using confirm_order_frame by fastforce
next
  case (delete s order_id p s')
  then show ?case using order_delete_frame by fastforce
qed

lemma requests_frame:
  "(request self)\<^sup>*\<^sup>* s s' \<Longrightarrow>
     set (revoked s) \<subseteq> set (revoked s') \<and> o_id ` set (orders s') \<subseteq> o_id ` set (orders s)"
proof (induction rule: rtranclp_induct)
  case base
  show ?case by simp
next
  case (step y z)
  from request_frame [OF step.hyps(2)] step.IH show ?case by blast
qed

text \<open>An example of a later request: Carol registers after the order was deleted.\<close>

lemma demo_register:
  "RegistrationApi_post demo_api (demo_store\<lparr>orders := []\<rparr>) carol_form =
     Inr (\<lparr>body = [(''message'', JStr ''Successfully registered''),
                   (''access_token'', JStr ''access-token''),
                   (''refresh_token'', JStr ''refresh-token'')], status_code = 200\<rparr>,
          demo_store\<lparr>orders := [], users := [alice, bob, carol], user_seq := 4\<rparr>)"
  by (simp add: RegistrationApi_post_def demo_api_def demo_store_def carol_form_def carol_def
        BaseResource_check_data_def raising_def first_def new_user_def add_user_def
        alice_def bob_def)

lemma orders_info_absent:
  "order_id \<notin> o_id ` set (orders s) \<Longrightarrow> orders_info s order_id = Inl NotFound"
proof -
  assume "order_id \<notin> o_id ` set (orders s)"
  then have "filter (\<lambda>r. o_id r = order_id) (orders s) = []"
    by (auto simp: filter_empty_conv)
  then show ?thesis by (simp add: orders_info_def raising_def first_or_404_def)
qed

lemma order_delete_absent:
  "order_delete s order_id = Inr (p, s1) \<Longrightarrow> order_id \<notin> o_id ` set (orders s1)"
  by (auto simp: order_delete_def raising_def delete_order_def split: sum.splits
           dest!: first_or_404_filter_Inr)

text \<open>
  C7. Once \<^verbatim>\<open>order_delete\<close> has removed the order with an id, the detail view
  \<^verbatim>\<open>orders_info\<close> for that id fails with the 404 of \<^verbatim>\<open>first_or_404\<close> after any
  sequence of further requests to the routes of the sources. The detail view returns the
  page of the order and its owning user exactly when the order is found and a user with
  the order's \<^verbatim>\<open>user_id\<close> is found; whenever it fails, it fails with not-found.
\<close>

theorem orders_info_after_order_delete:
  "(order_delete s order_id = Inr (p, s1) \<and> (request self)\<^sup>*\<^sup>* s1 s2
      \<longrightarrow> orders_info s2 order_id = Inl NotFound) \<and>
   (orders_info s order_id = Inr (pg, s') \<longleftrightarrow>
      (\<exists>order user. first (filter (\<lambda>r. o_id r = order_id) (orders s)) = Some order \<and>
         first (filter (\<lambda>u. u_id u = user_id order) (users s)) = Some user \<and>
         pg = OrdersInfoPage order user \<and> s' = s)) \<and>
   (orders_info s order_id = Inl e \<longrightarrow> e = NotFound)"
proof (intro conjI impI)
  assume a: "order_delete s order_id = Inr (p, s1) \<and> (request self)\<^sup>*\<^sup>* s1 s2"
  then have "order_id \<notin> o_id ` set (orders s1)" using order_delete_absent by blast
  moreover have "o_id ` set (orders s2) \<subseteq> o_id ` set (orders s1)"
    using a requests_frame by blast
  ultimately have "order_id \<notin> o_id ` set (orders s2)" by blast
  then show "orders_info s2 order_id = Inl NotFound" by (rule orders_info_absent)
next
  show "orders_info s order_id = Inr (pg, s') \<longleftrightarrow>
      (\<exists>order user. first (filter (\<lambda>r. o_id r = order_id) (orders s)) = Some order \<and>
         first (filter (\<lambda>u. u_id u = user_id order) (users s)) = Some user \<and>
         pg = OrdersInfoPage order user \<and> s' = s)"
    by (auto simp: orders_info_def raising_def first_or_404_def first_def
             split: list.splits sum.splits)
next
  assume "orders_info s order_id = Inl e"
  then show "e = NotFound"
    by (auto simp: orders_info_def raising_def first_or_404_def split: list.splits sum.splits)
qed

theorem orders_info_after_order_delete_witness:
  "order_delete demo_store 7 = Inr (Redirect ''ecommerce_panel.orders_list'', demo_store\<lparr>orders := []\<rparr>) \<and>
   (request demo_api)\<^sup>*\<^sup>* (demo_store\<lparr>orders := []\<rparr>)
      (demo_store\<lparr>orders := [], users := [alice, bob, carol], user_seq := 4\<rparr>) \<and>
   orders_info (demo_store\<lparr>orders := [], users := [alice, bob, carol], user_seq := 4\<rparr>) 7
     = Inl NotFound \<and>
   orders_info demo_store 7 = Inr (OrdersInfoPage demo_order alice, demo_store)"
proof -
  have d: "order_delete demo_store 7 =
             Inr (Redirect ''ecommerce_panel.orders_list'', demo_store\<lparr>orders := []\<rparr>)"
    by (simp add: order_delete_def raising_def first_or_404_def delete_order_def
          demo_store_def demo_order_def)
  have r: "(request demo_api)\<^sup>*\<^sup>* (demo_store\<lparr>orders := []\<rparr>)
             (demo_store\<lparr>orders := [], users := [alice, bob, carol], user_seq := 4\<rparr>)"
    using request.register [OF demo_register] by (rule r_into_rtranclp)
  have o: "first (filter (\<lambda>r. o_id r = 7) (orders demo_store)) = Some demo_order"
    by (simp add: first_def demo_store_def demo_order_def)
  have u: "first (filter (\<lambda>u. u_id u = user_id demo_order) (users demo_store)) = Some alice"
    by (simp add: first_def demo_store_def demo_order_def alice_def bob_def)
  from orders_info_after_order_delete
         [of demo_store 7 "Redirect ''ecommerce_panel.orders_list''" "demo_store\<lparr>orders := []\<rparr>"
             demo_api "demo_store\<lparr>orders := [], users := [alice, bob, carol], user_seq := 4\<rparr>"
             "OrdersInfoPage demo_order alice" demo_store NotFound]
       d r o u
  show ?thesis by simp
qed

text \<open>
  C9. \<^verbatim>\<open>orders_list\<close> with the query parameter \<^verbatim>\<open>per_page=0\<close> raises
  \<^verbatim>\<open>ZeroDivisionError\<close> at \<^verbatim>\<open>query.count() / per_page\<close>, which nothing guards; with
  any other value, or none (the default 20), the division goes through and the view
  returns the rendered listing of the page \<open>paginate\<close> gives, the store as it is.
\<close>

theorem orders_list_division:
  "(per_page_arg args = Some 0 \<longrightarrow> orders_list paginate s args = Inl ZeroDivisionError) \<and>
   (per_page_arg args \<noteq> Some 0 \<longrightarrow>
      (\<exists>items. orders_list paginate s args = Inr (OrdersListPage items, s)))"
  by (auto simp: orders_list_def Let_def split: option.splits)

theorem orders_list_division_witness:
  "per_page_arg \<lparr>page_arg = None, per_page_arg = Some 0\<rparr> = Some 0 \<and>
   orders_list paginate_items demo_store \<lparr>page_arg = None, per_page_arg = Some 0\<rparr>
     = Inl ZeroDivisionError \<and>
   per_page_arg \<lparr>page_arg = Some 2, per_page_arg = None\<rparr> \<noteq> Some 0 \<and>
   (\<exists>items. orders_list paginate_items demo_store \<lparr>page_arg = Some 2, per_page_arg = None\<rparr>
      = Inr (OrdersListPage items, demo_store))"
  using orders_list_division [of "\<lparr>page_arg = None, per_page_arg = Some 0\<rparr>" paginate_items demo_store]
        orders_list_division [of "\<lparr>page_arg = Some 2, per_page_arg = None\<rparr>" paginate_items demo_store]
  by simp

text \<open>
  C8, as stated, fails on the listing itself: \<^verbatim>\<open>orders_list\<close> returns the rendered
  template \<^verbatim>\<open>order/orders_list.html\<close>, which is no redirect.
\<close>

theorem orders_list_renders_counterexample:
  "orders_list paginate_items demo_store \<lparr>page_arg = None, per_page_arg = None\<rparr>
     = Inr (OrdersListPage [demo_order], demo_store) \<and>
   OrdersListPage [demo_order] \<noteq> Redirect ''ecommerce_panel.orders_list''"
  by (simp add: orders_list_def paginate_items_def demo_store_def)

text \<open>
  C8, amended. The status toggle and the delete return a redirect to the endpoint
  \<^verbatim>\<open>ecommerce_panel.orders_list\<close> whenever they return, and they return exactly when an
  order with the id exists (otherwise both fail with not-found). The list operation
  returns the rendered listing and the detail view the rendered detail page.
\<close>

theorem panel_redirects:
  "(confirm_order s order_id = Inr (p, s') \<longrightarrow> p = Redirect ''ecommerce_panel.orders_list'') \<and>
   (order_delete s order_id = Inr (p, s') \<longrightarrow> p = Redirect ''ecommerce_panel.orders_list'') \<and>
   (filter (\<lambda>r. o_id r = order_id) (orders s) \<noteq> [] \<longrightarrow>
      (\<exists>s1 s2. confirm_order s order_id = Inr (Redirect ''ecommerce_panel.orders_list'', s1) \<and>
               order_delete s order_id = Inr (Redirect ''ecommerce_panel.orders_list'', s2))) \<and>
   (filter (\<lambda>r. o_id r = order_id) (orders s) = [] \<longrightarrow>
      confirm_order s order_id = Inl NotFound \<and> order_delete s order_id = Inl NotFound) \<and>
   (orders_list paginate s args = Inr (p, s') \<longrightarrow> (\<exists>items. p = OrdersListPage items)) \<and>
   (orders_info s order_id = Inr (p, s') \<longrightarrow> (\<exists>order user. p = OrdersInfoPage order user))"
  by (auto simp: confirm_order_def order_delete_def orders_list_def orders_info_def raising_def
        first_or_404_def Let_def split: list.splits sum.splits if_splits)

theorem panel_redirects_witness:
  "filter (\<lambda>r. o_id r = 7) (orders demo_store) \<noteq> [] \<and>
   (\<exists>s1 s2. confirm_order demo_store 7 = Inr (Redirect ''ecommerce_panel.orders_list'', s1) \<and>
            order_delete demo_store 7 = Inr (Redirect ''ecommerce_panel.orders_list'', s2)) \<and>
   filter (\<lambda>r. o_id r = 8) (orders demo_store) = [] \<and>
   confirm_order demo_store 8 = Inl NotFound \<and> order_delete demo_store 8 = Inl NotFound"
proof -
  have a: "filter (\<lambda>r. o_id r = 7) (orders demo_store) \<noteq> []"
    by (simp add: demo_store_def demo_order_def)
  have b: "filter (\<lambda>r. o_id r = 8) (orders demo_store) = []"
    by (simp add: demo_store_def demo_order_def)
  from panel_redirects [of demo_store 7] panel_redirects [of demo_store 8] a b
  show ?thesis by blast
qed

section \<open>Properties of the authentication API\<close>

lemma py_getitem_JObj: "py_getitem data k = Inr v \<Longrightarrow> \<exists>kvs. data = JObj kvs \<and> map_of kvs k = Some v"
  by (cases data) (auto split: option.splits)

lemma first_filter_None: "first (filter P rows) = None \<longleftrightarrow> (\<forall>r\<in>set rows. \<not> P r)"
proof (cases "filter P rows")
  case Nil
  then show ?thesis by (simp add: first_def filter_empty_conv)
next
  case (Cons a as)
  then have "filter P rows \<noteq> []" by simp
  then have "\<exists>r\<in>set rows. P r" by (simp add: filter_empty_conv)
  with Cons show ?thesis by (simp add: first_def)
qed

lemma RegistrationApi_post_persists:
  assumes "check_data self data [''password'', ''email'']"
    and "py_getitem data ''password'' = Inr pw" and "py_getitem data ''email'' = Inr em"
    and "RegistrationApi_post self s data = Inr (r, s1)"
  shows "\<exists>u\<in>set (users s1). email u = em"
proof -
  from assms(2) obtain kvs where d: "data = JObj kvs" using py_getitem_JObj by blast
  show ?thesis
  proof (cases "first (filter (\<lambda>u. email u = em) (users s)) = None")
    case True
    with assms d have "\<exists>u. email u = em \<and> users s1 = users s @ [u]"
      by (auto simp: RegistrationApi_post_def raising_def Let_def add_user_def new_user_def
               split: if_splits)
    then show ?thesis by auto
  next
    case False
    with assms d have "s1 = s"
      by (auto simp: RegistrationApi_post_def raising_def Let_def)
    with False show ?thesis by (auto simp: first_filter_None)
  qed
qed

lemma RegistrationApi_post_exists:
  assumes "check_data self data [''password'', ''email'']"
    and "py_getitem data ''password'' = Inr pw" and "py_getitem data ''email'' = Inr em"
    and "\<exists>u\<in>set (users s). email u = em"
  shows "RegistrationApi_post self s data = Inr (already_exists, s)"
proof -
  from assms(2) obtain kvs where d: "data = JObj kvs" using py_getitem_JObj by blast
  from assms(4) have "first (filter (\<lambda>u. email u = em) (users s)) \<noteq> None"
    by (simp add: first_filter_None)
  with assms d show ?thesis
    by (simp add: RegistrationApi_post_def raising_def)
qed

text \<open>
  C1. A registration request carries the required email and password: it passes
  \<^verbatim>\<open>check_data\<close> and both \<^verbatim>\<open>data['password']\<close> and \<^verbatim>\<open>data['email']\<close> are there. For
  every such request whose email is the email of a stored user,
  \<^verbatim>\<open>RegistrationApi.post\<close> returns the conflict response and the store, with its user
  rows, stays as it is. In particular this is so when the store is the one an earlier
  registration request with the same email has left: the second attempt gets the
  conflict response. The conflict response is the message
  \<^verbatim>\<open>A user with this email already exists.\<close> with status 409.
\<close>

theorem RegistrationApi_post_conflict:
  assumes "check_data self data [''password'', ''email'']"
    and "py_getitem data ''password'' = Inr pw" and "py_getitem data ''email'' = Inr em"
  shows "((\<exists>u\<in>set (users s). email u = em) \<longrightarrow>
            RegistrationApi_post self s data = Inr (already_exists, s)) \<and>
         (\<forall>data0 pw0 r0 s0.
            check_data self data0 [''password'', ''email''] \<and>
            py_getitem data0 ''password'' = Inr pw0 \<and> py_getitem data0 ''email'' = Inr em \<and>
            RegistrationApi_post self s0 data0 = Inr (r0, s) \<longrightarrow>
            RegistrationApi_post self s data = Inr (already_exists, s)) \<and>
         body already_exists = [(''message'', JStr ''A user with this email already exists.'')] \<and>
         status_code already_exists = 409"
proof (intro conjI impI allI)
  assume "\<exists>u\<in>set (users s). email u = em"
  with assms show "RegistrationApi_post self s data = Inr (already_exists, s)"
    by (rule RegistrationApi_post_exists)
next
  fix data0 pw0 r0 s0
  assume a: "check_data self data0 [''password'', ''email''] \<and>
            py_getitem data0 ''password'' = Inr pw0 \<and> py_getitem data0 ''email'' = Inr em \<and>
            RegistrationApi_post self s0 data0 = Inr (r0, s)"
  then have "\<exists>u\<in>set (users s). email u = em"
    using RegistrationApi_post_persists by blast
  with assms show "RegistrationApi_post self s data = Inr (already_exists, s)"
    by (rule RegistrationApi_post_exists)
qed (simp_all add: already_exists_def)

lemma demo_check_data:
  "check_data demo_api alice_again [''password'', ''email'']"
  "check_data demo_api carol_form [''password'', ''email'']"
  by (simp_all add: demo_api_def BaseResource_check_data_def alice_again_def carol_form_def)

theorem RegistrationApi_post_conflict_witness:
  "check_data demo_api alice_again [''password'', ''email''] \<and>
   py_getitem alice_again ''password'' = Inr (JStr ''other'') \<and>
   py_getitem alice_again ''email'' = Inr (JStr ''alice@example.org'') \<and>
   (\<exists>u\<in>set (users demo_store). email u = JStr ''alice@example.org'') \<and>
   RegistrationApi_post demo_api demo_store alice_again = Inr (already_exists, demo_store) \<and>
   (\<exists>r0. RegistrationApi_post demo_api (demo_store\<lparr>orders := []\<rparr>) carol_form =
      Inr (r0, demo_store\<lparr>orders := [], users := [alice, bob, carol], user_seq := 4\<rparr>)) \<and>
   RegistrationApi_post demo_api
       (demo_store\<lparr>orders := [], users := [alice, bob, carol], user_seq := 4\<rparr>) carol_form =
     Inr (already_exists, demo_store\<lparr>orders := [], users := [alice, bob, carol], user_seq := 4\<rparr>)"
proof -
  have a: "py_getitem alice_again ''password'' = Inr (JStr ''other'')"
    and b: "py_getitem alice_again ''email'' = Inr (JStr ''alice@example.org'')"
    by (simp_all add: alice_again_def)
  have c: "\<exists>u\<in>set (users demo_store). email u = JStr ''alice@example.org''"
    by (simp add: demo_store_def alice_def)
  have a': "py_getitem carol_form ''password'' = Inr (JStr ''s3cret'')"
    and b': "py_getitem carol_form ''email'' = Inr (JStr ''carol@example.org'')"
    by (simp_all add: carol_form_def)
  have one: "RegistrationApi_post demo_api demo_store alice_again = Inr (already_exists, demo_store)"
    using RegistrationApi_post_conflict [OF demo_check_data(1) a b, of demo_store] c by blast
  have two: "RegistrationApi_post demo_api
       (demo_store\<lparr>orders := [], users := [alice, bob, carol], user_seq := 4\<rparr>) carol_form =
     Inr (already_exists, demo_store\<lparr>orders := [], users := [alice, bob, carol], user_seq := 4\<rparr>)"
    using RegistrationApi_post_conflict [OF demo_check_data(2) a' b',
            of "demo_store\<lparr>orders := [], users := [alice, bob, carol], user_seq := 4\<rparr>"]
          demo_check_data(2) a' b' demo_register
    by blast
  from demo_check_data(1) a b c one two demo_register show ?thesis by blast
qed

lemma distinct_email_filter:
  "distinct (map email rows) \<Longrightarrow> length (filter (\<lambda>u. email u = em) rows) \<le> 1"
proof (induction rows)
  case Nil
  then show ?case by simp
next
  case (Cons a rows)
  show ?case
  proof (cases "email a = em")
    case True
    from Cons.prems have "email a \<notin> email ` set rows" by simp
    with True have "\<forall>r\<in>set rows. email r \<noteq> em" by (metis imageI)
    then have "filter (\<lambda>u. email u = em) rows = []" by (simp add: filter_empty_conv)
    with True show ?thesis by simp
  next
    case False
    with Cons show ?thesis by simp
  qed
qed

text \<open>
  C3. On a store whose emails are unique, as the schema keeps them: for every login
  request with both email and password, if no stored user has that email or the password
  check fails for the stored user with that email, \<^verbatim>\<open>LoginApi.post\<close> returns status 401
  with the message \<^verbatim>\<open>Username or password is not correct\<close> and leaves the store as it
  is. In particular a correct email with a wrong password gets this response.
\<close>

theorem LoginApi_post_not_correct:
  assumes "check_data self data [''email'', ''password'']"
    and "py_getitem data ''password'' = Inr pw" and "py_getitem data ''email'' = Inr em"
    and "distinct (map email (users s))"
    and "\<forall>u\<in>set (users s). email u = em \<longrightarrow> \<not> check_password self u pw"
  shows "LoginApi_post self s data = Inr (not_correct, s) \<and>
         body not_correct = [(''message'', JStr ''Username or password is not correct'')] \<and>
         status_code not_correct = 401"
proof -
  have "length (filter (\<lambda>u. email u = em) (users s)) \<le> 1"
    using assms(4) by (rule distinct_email_filter)
  then have "filter (\<lambda>u. email u = em) (users s) = [] \<or>
        (\<exists>u. filter (\<lambda>u. email u = em) (users s) = [u])"
    by (cases "filter (\<lambda>u. email u = em) (users s)") auto
  then show ?thesis
  proof
    assume "filter (\<lambda>u. email u = em) (users s) = []"
    with assms(1-3) show ?thesis
      by (simp add: LoginApi_post_def raising_def scalar_def not_correct_def)
  next
    assume "\<exists>u. filter (\<lambda>u. email u = em) (users s) = [u]"
    then obtain u where u: "filter (\<lambda>u. email u = em) (users s) = [u]" by blast
    then have "u \<in> set (filter (\<lambda>u. email u = em) (users s))" by simp
    then have "\<not> check_password self u pw" using assms(5) by simp
    with assms(1-3) u show ?thesis
      by (simp add: LoginApi_post_def raising_def scalar_def not_correct_def)
  qed
qed

theorem LoginApi_post_not_correct_witness:
  "check_data demo_api alice_wrong [''email'', ''password''] \<and>
   py_getitem alice_wrong ''password'' = Inr (JStr ''guess'') \<and>
   py_getitem alice_wrong ''email'' = Inr (JStr ''alice@example.org'') \<and>
   distinct (map email (users demo_store)) \<and>
   filter (\<lambda>u. email u = JStr ''alice@example.org'') (users demo_store) = [alice] \<and>
   \<not> check_password demo_api alice (JStr ''guess'') \<and>
   LoginApi_post demo_api demo_store alice_wrong = Inr (not_correct, demo_store) \<and>
   LoginApi_post demo_api demo_store nobody_form = Inr (not_correct, demo_store)"
proof -
  have c: "check_data demo_api alice_wrong [''email'', ''password'']"
    and c': "check_data demo_api nobody_form [''email'', ''password'']"
    by (simp_all add: demo_api_def BaseResource_check_data_def alice_wrong_def nobody_form_def)
  have a: "py_getitem alice_wrong ''password'' = Inr (JStr ''guess'')"
    and b: "py_getitem alice_wrong ''email'' = Inr (JStr ''alice@example.org'')"
    and a': "py_getitem nobody_form ''password'' = Inr (JStr ''guess'')"
    and b': "py_getitem nobody_form ''email'' = Inr (JStr ''nobody@example.org'')"
    by (simp_all add: alice_wrong_def nobody_form_def)
  have l: "distinct (map email (users demo_store))"
    by (simp add: demo_store_def alice_def bob_def)
  have p: "\<forall>u\<in>set (users demo_store).
      email u = JStr ''alice@example.org'' \<longrightarrow> \<not> check_password demo_api u (JStr ''guess'')"
    and p': "\<forall>u\<in>set (users demo_store).
      email u = JStr ''nobody@example.org'' \<longrightarrow> \<not> check_password demo_api u (JStr ''guess'')"
    by (simp_all add: demo_store_def alice_def bob_def demo_api_def)
  have f: "filter (\<lambda>u. email u = JStr ''alice@example.org'') (users demo_store) = [alice]"
    and g: "\<not> check_password demo_api alice (JStr ''guess'')"
    by (simp_all add: demo_store_def alice_def bob_def demo_api_def)
  from LoginApi_post_not_correct [OF c a b l p] LoginApi_post_not_correct [OF c' a' b' l p']
       c a b l f g
  show ?thesis by blast
qed

subsection \<open>Profile update\<close>

lemma put_fields_step:
  "put_fields self (JObj kvs) (field # rest) u =
     put_fields self (JObj kvs) rest
       (case supplied kvs field of None \<Rightarrow> u | Some v \<Rightarrow> setattr_user self u field v)"
  by (simp add: raising_def supplied_def split: option.splits)

lemma put_fields_all:
  "put_fields self (JObj kvs) [''first_name'', ''last_name'', ''email'', ''password''] cu =
     Inr (cu\<lparr>first_name := (case supplied kvs ''first_name'' of None \<Rightarrow> first_name cu | Some v \<Rightarrow> v),
             last_name := (case supplied kvs ''last_name'' of None \<Rightarrow> last_name cu | Some v \<Rightarrow> v),
             email := (case supplied kvs ''email'' of None \<Rightarrow> email cu | Some v \<Rightarrow> v),
             password := (case supplied kvs ''password'' of None \<Rightarrow> password cu
                          | Some v \<Rightarrow> hash_password self v)\<rparr>)"
  by (simp only: put_fields_step put_fields.simps(1))
     (simp add: setattr_user_def split: option.splits)

lemma ProfileApi_put_JObj:
  "ProfileApi_put self s cu (JObj kvs) =
     (let u = cu\<lparr>first_name := (case supplied kvs ''first_name'' of None \<Rightarrow> first_name cu | Some v \<Rightarrow> v),
             last_name := (case supplied kvs ''last_name'' of None \<Rightarrow> last_name cu | Some v \<Rightarrow> v),
             email := (case supplied kvs ''email'' of None \<Rightarrow> email cu | Some v \<Rightarrow> v),
             password := (case supplied kvs ''password'' of None \<Rightarrow> password cu
                          | Some v \<Rightarrow> hash_password self v)\<rparr>
      in if email_taken u (users s) then Inl IntegrityError
         else Inr (\<lparr>body = [(''message'', JStr ''Profile successfully updated''),
                          (''user'', user_dict u)], status_code = 200\<rparr>,
                   s\<lparr>users := map (\<lambda>r. if u_id r = u_id u then u else r) (users s)\<rparr>))"
  unfolding ProfileApi_put_def put_fields_all
  by (simp add: raising_def Let_def commit_user_def)

text \<open>What the rows look like after an object with primary key \<open>k\<close> was written.\<close>

lemma written_rows:
  assumes "u_id u = k"
  shows "\<forall>r\<in>set (map (\<lambda>r. if u_id r = k then u else r) rows). u_id r = k \<longrightarrow> r = u"
    and "x \<in> set rows \<Longrightarrow> u_id x = k \<Longrightarrow> u \<in> set (map (\<lambda>r. if u_id r = k then u else r) rows)"
    and "map u_id (map (\<lambda>r. if u_id r = k then u else r) rows) = map u_id rows"
    and "filter (\<lambda>r. u_id r \<noteq> k) (map (\<lambda>r. if u_id r = k then u else r) rows) =
           filter (\<lambda>r. u_id r \<noteq> k) rows"
proof -
  show "\<forall>r\<in>set (map (\<lambda>r. if u_id r = k then u else r) rows). u_id r = k \<longrightarrow> r = u"
    by auto
  show "x \<in> set rows \<Longrightarrow> u_id x = k \<Longrightarrow> u \<in> set (map (\<lambda>r. if u_id r = k then u else r) rows)"
    by force
  show "map u_id (map (\<lambda>r. if u_id r = k then u else r) rows) = map u_id rows"
    using assms by (induction rows) simp_all
  show "filter (\<lambda>r. u_id r \<noteq> k) (map (\<lambda>r. if u_id r = k then u else r) rows) =
           filter (\<lambda>r. u_id r \<noteq> k) rows"
    using assms by (induction rows) simp_all
qed

text \<open>The schema's invariant is kept by every write of a user row, and so by every request.\<close>

lemma written_rows_distinct_email:
  assumes "distinct (map u_id rows)" and "distinct (map email rows)"
    and "\<not> email_taken u rows"
  shows "distinct (map email (map (\<lambda>r. if u_id r = u_id u then u else r) rows))"
  using assms
proof (induction rows)
  case Nil
  then show ?case by simp
next
  case (Cons a rows)
  from Cons.prems have nt: "\<not> email_taken u rows" by (auto simp: email_taken_def)
  from Cons.prems nt have ih: "distinct (map email (map (\<lambda>r. if u_id r = u_id u then u else r) rows))"
    using Cons.IH by simp
  show ?case
  proof (cases "u_id a = u_id u")
    case True
    from Cons.prems(1) have "u_id a \<notin> u_id ` set rows" by simp
    with True have other: "\<forall>r\<in>set rows. u_id r \<noteq> u_id u" by (metis imageI)
    then have same: "map (\<lambda>r. if u_id r = u_id u then u else r) rows = rows"
      by (induction rows) simp_all
    from other nt have "email u \<notin> email ` set rows"
      by (auto simp: email_taken_def)
    with True same Cons.prems(2) show ?thesis by simp
  next
    case False
    with Cons.prems(3) have au: "email a \<noteq> email u" by (auto simp: email_taken_def)
    from Cons.prems(2) have fresh: "email a \<notin> email ` set rows" by simp
    have sub: "set (map (\<lambda>r. if u_id r = u_id u then u else r) rows) \<subseteq> insert u (set rows)"
      by auto
    have notin: "email a \<notin> set (map email (map (\<lambda>r. if u_id r = u_id u then u else r) rows))"
    proof
      assume "email a \<in> set (map email (map (\<lambda>r. if u_id r = u_id u then u else r) rows))"
      then have "email a \<in> email ` set (map (\<lambda>r. if u_id r = u_id u then u else r) rows)"
        by (simp only: set_map)
      then obtain x where x: "x \<in> set (map (\<lambda>r. if u_id r = u_id u then u else r) rows)"
        and e: "email a = email x" by (rule imageE)
      from x sub have "x = u \<or> x \<in> set rows" by blast
      with e au fresh show False by auto
    qed
    have "map (\<lambda>r. if u_id r = u_id u then u else r) (a # rows) =
            a # map (\<lambda>r. if u_id r = u_id u then u else r) rows"
      using False by simp
    then have "map email (map (\<lambda>r. if u_id r = u_id u then u else r) (a # rows)) =
            email a # map email (map (\<lambda>r. if u_id r = u_id u then u else r) rows)"
      by (simp only: list.map)
    with ih notin show ?thesis by (simp only: distinct.simps simp_thms)
  qed
qed

lemma ProfileApi_put_valid_store:
  assumes "valid_store s" and "ProfileApi_put self s cu data = Inr (resp, s')"
  shows "valid_store s'"
proof -
  from assms(2) obtain u where nt: "\<not> email_taken u (users s)"
    and s': "s' = s\<lparr>users := map (\<lambda>r. if u_id r = u_id u then u else r) (users s)\<rparr>"
    by (auto simp: ProfileApi_put_def raising_def commit_user_def split: sum.splits if_splits)
  have "map u_id (users s') = map u_id (users s)"
    unfolding s' by (simp add: written_rows(3) [OF refl])
  moreover from this have "u_id ` set (users s') = u_id ` set (users s)"
    by (metis set_map)
  moreover have "distinct (map email (users s'))"
  proof -
    have "distinct (map email (map (\<lambda>r. if u_id r = u_id u then u else r) (users s)))"
      using assms(1) nt by (intro written_rows_distinct_email) (simp_all add: valid_store_def)
    moreover have "users s' = map (\<lambda>r. if u_id r = u_id u then u else r) (users s)"
      by (simp add: s')
    ultimately show ?thesis by (simp only:)
  qed
  moreover have "user_seq s' = user_seq s" by (simp add: s')
  ultimately show ?thesis using assms(1) unfolding valid_store_def
    by (metis (no_types, lifting) imageE imageI)
qed

lemma RegistrationApi_post_store:
  assumes "RegistrationApi_post self s data = Inr (resp, s')"
  shows "s' = s \<or>
         (\<exists>u. u_id u = user_seq s \<and> (\<forall>r\<in>set (users s). email r \<noteq> email u) \<and>
              s' = s\<lparr>users := users s @ [u], user_seq := Suc (user_seq s)\<rparr>)"
proof (cases "s' = s")
  case True
  then show ?thesis by simp
next
  case False
  with assms obtain pw em fname lname where "\<forall>r\<in>set (users s). email r \<noteq> em"
    and "s' = s\<lparr>users := users s @ [new_user self (user_seq s) pw em fname lname],
                  user_seq := Suc (user_seq s)\<rparr>"
    by (auto simp: RegistrationApi_post_def raising_def Let_def add_user_def new_user_def
             split: if_splits sum.splits)
  then have "u_id (new_user self (user_seq s) pw em fname lname) = user_seq s \<and>
      (\<forall>r\<in>set (users s). email r \<noteq> email (new_user self (user_seq s) pw em fname lname)) \<and>
      s' = s\<lparr>users := users s @ [new_user self (user_seq s) pw em fname lname],
              user_seq := Suc (user_seq s)\<rparr>"
    by (simp add: new_user_def)
  then show ?thesis by blast
qed

lemma RegistrationApi_post_valid_store:
  assumes "valid_store s" and "RegistrationApi_post self s data = Inr (resp, s')"
  shows "valid_store s'"
proof -
  from RegistrationApi_post_store [OF assms(2)] show ?thesis
  proof
    assume "s' = s"
    with assms(1) show ?thesis by simp
  next
    assume "\<exists>u. u_id u = user_seq s \<and> (\<forall>r\<in>set (users s). email r \<noteq> email u) \<and>
              s' = s\<lparr>users := users s @ [u], user_seq := Suc (user_seq s)\<rparr>"
    then obtain u where u: "u_id u = user_seq s" "\<forall>r\<in>set (users s). email r \<noteq> email u"
      and s': "s' = s\<lparr>users := users s @ [u], user_seq := Suc (user_seq s)\<rparr>"
      by blast
    from assms(1) u have "u_id u \<notin> u_id ` set (users s)" "email u \<notin> email ` set (users s)"
      by (auto simp: valid_store_def)
    with assms(1) u show ?thesis
      by (auto simp: valid_store_def s' less_Suc_eq)
  qed
qed

lemma request_valid_store: "request self s s' \<Longrightarrow> valid_store s \<Longrightarrow> valid_store s'"
proof (induction rule: request.induct)
  case (register s data r s')
  then show ?case using RegistrationApi_post_valid_store by blast
next
  case (login s data r s')
  then show ?case using LoginApi_post_frame by blast
next
  case (logout s tok r s')
  then show ?case
    by (auto simp: LogoutApi_def LogoutApi_post_def RevokedToken_add_def valid_store_def
             dest!: verified_frame)
next
  case (logout_refresh s tok r s')
  then show ?case
    by (auto simp: LogoutRefreshApi_def LogoutRefreshApi_post_def RevokedToken_add_def
             valid_store_def dest!: verified_frame)
next
  case (refresh s tok r s')
  then show ?case
    by (auto simp: RefreshTokenApi_def RefreshTokenApi_post_def dest!: verified_frame)
next
  case (profile_get s tok cu r s')
  then show ?case
    by (auto simp: ProfileApi_get_route_def ProfileApi_get_def dest!: verified_frame)
next
  case (profile_put s tok cu data r s')
  from profile_put.hyps have "ProfileApi_put self s cu data = Inr (r, s')"
    unfolding ProfileApi_put_route_def by (rule verified_frame(1))
  with profile_put.prems show ?case by (rule ProfileApi_put_valid_store)
next
  case (list paginate s args p s')
  then show ?case by (auto dest!: panel_frame)
next
  case (info s order_id p s')
  then show ?case by (auto dest!: panel_frame)
next
  case (confirm s order_id p s')
  then show ?case
    by (auto simp: confirm_order_def raising_def valid_store_def split: sum.splits)
next
  case (delete s order_id p s')
  then show ?case
    by (auto simp: order_delete_def raising_def valid_store_def split: sum.splits)
qed

lemma requests_valid_store:
  "(request self)\<^sup>*\<^sup>* s s' \<Longrightarrow> valid_store s \<Longrightarrow> valid_store s'"
  by (induction rule: rtranclp_induct) (auto dest: request_valid_store)

text \<open>
  C5, as stated, fails for a body whose email another user holds: the update is not
  committed (the commit raises \<^verbatim>\<open>IntegrityError\<close>), so neither the first name nor the
  email of the body, both present and truthy, is changed.
\<close>

theorem ProfileApi_put_taken_counterexample:
  "supplied robert_takes_alice ''first_name'' = Some (JStr ''Robert'') \<and>
   supplied robert_takes_alice ''email'' = Some (JStr ''alice@example.org'') \<and>
   ProfileApi_put demo_api demo_store bob (JObj robert_takes_alice) = Inl IntegrityError"
  by (simp add: ProfileApi_put_JObj supplied_def robert_takes_alice_def email_taken_def
        demo_store_def alice_def bob_def)

text \<open>
  C5, amended. For a body that is a dict, let the current user take the body's value for
  each of \<^verbatim>\<open>first_name\<close>, \<^verbatim>\<open>last_name\<close>, \<^verbatim>\<open>email\<close> that is present and truthy, what
  the password setter makes of the body's value for a present and truthy password, and
  keep every field that is omitted or falsy, and the primary key. If no other stored user
  holds the resulting email, \<^verbatim>\<open>ProfileApi.put\<close> answers 200 with this user, and
  afterwards every row with the current user's primary key is this user (the row is
  there when it was there before), while the rows of other users, the order of the rows
  and the other tables are as before. If another stored user holds the resulting email,
  the update is not committed (the commit raises \<^verbatim>\<open>IntegrityError\<close>) and no field is
  changed. A body that is no dict is not committed either (\<^verbatim>\<open>data.get\<close> raises
  \<^verbatim>\<open>AttributeError\<close>), and no field is changed.
\<close>

theorem ProfileApi_put_changes:
  "(\<exists>u. u_id u = u_id cu \<and>
      first_name u = (case supplied kvs ''first_name'' of None \<Rightarrow> first_name cu | Some v \<Rightarrow> v) \<and>
      last_name u = (case supplied kvs ''last_name'' of None \<Rightarrow> last_name cu | Some v \<Rightarrow> v) \<and>
      email u = (case supplied kvs ''email'' of None \<Rightarrow> email cu | Some v \<Rightarrow> v) \<and>
      password u = (case supplied kvs ''password'' of None \<Rightarrow> password cu
                    | Some v \<Rightarrow> hash_password self v) \<and>
      (if email_taken u (users s)
       then ProfileApi_put self s cu (JObj kvs) = Inl IntegrityError
       else (\<exists>rows.
               ProfileApi_put self s cu (JObj kvs) =
                 Inr (\<lparr>body = [(''message'', JStr ''Profile successfully updated''),
                               (''user'', user_dict u)], status_code = 200\<rparr>,
                      s\<lparr>users := rows\<rparr>) \<and>
               (\<forall>r\<in>set rows. u_id r = u_id cu \<longrightarrow> r = u) \<and>
               (cu \<in> set (users s) \<longrightarrow> u \<in> set rows) \<and>
               map u_id rows = map u_id (users s) \<and>
               filter (\<lambda>r. u_id r \<noteq> u_id cu) rows =
                 filter (\<lambda>r. u_id r \<noteq> u_id cu) (users s)))) \<and>
   ((\<forall>kvs'. data \<noteq> JObj kvs') \<longrightarrow> ProfileApi_put self s cu data = Inl AttributeError)"
proof
  define u where "u = cu\<lparr>first_name := (case supplied kvs ''first_name'' of None \<Rightarrow> first_name cu | Some v \<Rightarrow> v),
             last_name := (case supplied kvs ''last_name'' of None \<Rightarrow> last_name cu | Some v \<Rightarrow> v),
             email := (case supplied kvs ''email'' of None \<Rightarrow> email cu | Some v \<Rightarrow> v),
             password := (case supplied kvs ''password'' of None \<Rightarrow> password cu
                          | Some v \<Rightarrow> hash_password self v)\<rparr>"
  define rows where "rows = map (\<lambda>r. if u_id r = u_id cu then u else r) (users s)"
  have i: "u_id u = u_id cu" by (simp add: u_def)
  have p: "ProfileApi_put self s cu (JObj kvs) =
             (if email_taken u (users s) then Inl IntegrityError
              else Inr (\<lparr>body = [(''message'', JStr ''Profile successfully updated''),
                               (''user'', user_dict u)], status_code = 200\<rparr>,
                        s\<lparr>users := rows\<rparr>))"
    using ProfileApi_put_JObj [of self s cu kvs] by (simp add: Let_def u_def rows_def)
  have w: "\<forall>r\<in>set rows. u_id r = u_id cu \<longrightarrow> r = u"
    "cu \<in> set (users s) \<longrightarrow> u \<in> set rows"
    "map u_id rows = map u_id (users s)"
    "filter (\<lambda>r. u_id r \<noteq> u_id cu) rows = filter (\<lambda>r. u_id r \<noteq> u_id cu) (users s)"
    unfolding rows_def using written_rows [OF i] by blast+
  have f: "first_name u = (case supplied kvs ''first_name'' of None \<Rightarrow> first_name cu | Some v \<Rightarrow> v)"
    "last_name u = (case supplied kvs ''last_name'' of None \<Rightarrow> last_name cu | Some v \<Rightarrow> v)"
    "email u = (case supplied kvs ''email'' of None \<Rightarrow> email cu | Some v \<Rightarrow> v)"
    "password u = (case supplied kvs ''password'' of None \<Rightarrow> password cu
                    | Some v \<Rightarrow> hash_password self v)"
    by (simp_all add: u_def)
  have "if email_taken u (users s)
       then ProfileApi_put self s cu (JObj kvs) = Inl IntegrityError
       else (\<exists>rows.
               ProfileApi_put self s cu (JObj kvs) =
                 Inr (\<lparr>body = [(''message'', JStr ''Profile successfully updated''),
                               (''user'', user_dict u)], status_code = 200\<rparr>,
                      s\<lparr>users := rows\<rparr>) \<and>
               (\<forall>r\<in>set rows. u_id r = u_id cu \<longrightarrow> r = u) \<and>
               (cu \<in> set (users s) \<longrightarrow> u \<in> set rows) \<and>
               map u_id rows = map u_id (users s) \<and>
               filter (\<lambda>r. u_id r \<noteq> u_id cu) rows =
                 filter (\<lambda>r. u_id r \<noteq> u_id cu) (users s))"
  proof (cases "email_taken u (users s)")
    case True
    with p show ?thesis by simp
  next
    case False
    with p w show ?thesis by (simp only: if_False) blast
  qed
  with i f
  show "\<exists>u. u_id u = u_id cu \<and>
      first_name u = (case supplied kvs ''first_name'' of None \<Rightarrow> first_name cu | Some v \<Rightarrow> v) \<and>
      last_name u = (case supplied kvs ''last_name'' of None \<Rightarrow> last_name cu | Some v \<Rightarrow> v) \<and>
      email u = (case supplied kvs ''email'' of None \<Rightarrow> email cu | Some v \<Rightarrow> v) \<and>
      password u = (case supplied kvs ''password'' of None \<Rightarrow> password cu
                    | Some v \<Rightarrow> hash_password self v) \<and>
      (if email_taken u (users s)
       then ProfileApi_put self s cu (JObj kvs) = Inl IntegrityError
       else (\<exists>rows.
               ProfileApi_put self s cu (JObj kvs) =
                 Inr (\<lparr>body = [(''message'', JStr ''Profile successfully updated''),
                               (''user'', user_dict u)], status_code = 200\<rparr>,
                      s\<lparr>users := rows\<rparr>) \<and>
               (\<forall>r\<in>set rows. u_id r = u_id cu \<longrightarrow> r = u) \<and>
               (cu \<in> set (users s) \<longrightarrow> u \<in> set rows) \<and>
               map u_id rows = map u_id (users s) \<and>
               filter (\<lambda>r. u_id r \<noteq> u_id cu) rows =
                 filter (\<lambda>r. u_id r \<noteq> u_id cu) (users s)))"
    by (intro exI [of _ u] conjI)
next
  show "(\<forall>kvs'. data \<noteq> JObj kvs') \<longrightarrow> ProfileApi_put self s cu data = Inl AttributeError"
    by (cases data) (simp_all add: ProfileApi_put_def raising_def)
qed

theorem ProfileApi_put_changes_witness:
  "(\<exists>u rows. ProfileApi_put demo_api demo_store bob (JObj bob_form) =
             Inr (\<lparr>body = [(''message'', JStr ''Profile successfully updated''),
                           (''user'', user_dict u)], status_code = 200\<rparr>,
                  demo_store\<lparr>users := rows\<rparr>) \<and>
      u_id u = 2 \<and> first_name u = JStr ''Robert'' \<and> last_name u = JStr ''Builder'' \<and>
      email u = JStr ''bob@example.org'' \<and>
      password u = JList [JStr ''hashed'', JStr ''yeswecan''] \<and>
      u \<in> set rows \<and> map u_id rows = [1, 2]) \<and>
   (\<forall>kvs'. JNull \<noteq> JObj kvs') \<and>
   ProfileApi_put demo_api demo_store bob JNull = Inl AttributeError"
proof -
  have sup: "supplied bob_form ''first_name'' = Some (JStr ''Robert'')"
    "supplied bob_form ''last_name'' = None" "supplied bob_form ''email'' = None"
    "supplied bob_form ''password'' = Some (JStr ''yeswecan'')"
    by (simp_all add: supplied_def bob_form_def)
  have old: "u_id bob = 2" "last_name bob = JStr ''Builder''" "email bob = JStr ''bob@example.org''"
    by (simp_all add: bob_def)
  have h: "hash_password demo_api (JStr ''yeswecan'') = JList [JStr ''hashed'', JStr ''yeswecan'']"
    by (simp add: demo_api_def)
  have n: "\<forall>kvs'. JNull \<noteq> JObj kvs'" by simp
  have m: "bob \<in> set (users demo_store)" "map u_id (users demo_store) = [1, 2]"
    by (simp_all add: demo_store_def alice_def bob_def)
  from ProfileApi_put_changes [of bob bob_form demo_api demo_store JNull] n
  obtain u where u: "u_id u = 2" "first_name u = JStr ''Robert''" "last_name u = JStr ''Builder''"
      "email u = JStr ''bob@example.org''"
      "password u = JList [JStr ''hashed'', JStr ''yeswecan'']"
    and br: "if email_taken u (users demo_store)
       then ProfileApi_put demo_api demo_store bob (JObj bob_form) = Inl IntegrityError
       else (\<exists>rows.
               ProfileApi_put demo_api demo_store bob (JObj bob_form) =
                 Inr (\<lparr>body = [(''message'', JStr ''Profile successfully updated''),
                               (''user'', user_dict u)], status_code = 200\<rparr>,
                      demo_store\<lparr>users := rows\<rparr>) \<and>
               (\<forall>r\<in>set rows. u_id r = u_id bob \<longrightarrow> r = u) \<and>
               (bob \<in> set (users demo_store) \<longrightarrow> u \<in> set rows) \<and>
               map u_id rows = map u_id (users demo_store) \<and>
               filter (\<lambda>r. u_id r \<noteq> u_id bob) rows =
                 filter (\<lambda>r. u_id r \<noteq> u_id bob) (users demo_store))"
    and ae: "ProfileApi_put demo_api demo_store bob JNull = Inl AttributeError"
    unfolding sup old h option.case by blast
  have "\<not> email_taken u (users demo_store)"
    using u by (simp add: email_taken_def demo_store_def alice_def bob_def)
  with br m obtain rows where pr:
    "ProfileApi_put demo_api demo_store bob (JObj bob_form) =
       Inr (\<lparr>body = [(''message'', JStr ''Profile successfully updated''),
                     (''user'', user_dict u)], status_code = 200\<rparr>,
            demo_store\<lparr>users := rows\<rparr>)"
    "u \<in> set rows" "map u_id rows = [1, 2]"
    by auto
  have "\<exists>u rows. ProfileApi_put demo_api demo_store bob (JObj bob_form) =
             Inr (\<lparr>body = [(''message'', JStr ''Profile successfully updated''),
                           (''user'', user_dict u)], status_code = 200\<rparr>,
                  demo_store\<lparr>users := rows\<rparr>) \<and>
      u_id u = 2 \<and> first_name u = JStr ''Robert'' \<and> last_name u = JStr ''Builder'' \<and>
      email u = JStr ''bob@example.org'' \<and>
      password u = JList [JStr ''hashed'', JStr ''yeswecan''] \<and>
      u \<in> set rows \<and> map u_id rows = [1, 2]"
    using u pr by (intro exI [of _ u] exI [of _ rows]) (simp only: simp_thms)
  with n ae show ?thesis by (simp only: simp_thms)
qed

text \<open>
  C10, as stated, fails for the very request it is about: when another user holds the
  email of the body, the update is not committed (the commit raises
  \<^verbatim>\<open>IntegrityError\<close>), so the email is not set and no second row with it is stored.
\<close>

theorem ProfileApi_put_email_counterexample:
  "map_of bob_takes_alice ''email'' = Some (JStr ''alice@example.org'') \<and>
   truthy (JStr ''alice@example.org'') \<and>
   ProfileApi_put demo_api demo_store bob (JObj bob_takes_alice) = Inl IntegrityError"
  by (simp add: ProfileApi_put_JObj supplied_def bob_takes_alice_def email_taken_def
        demo_store_def alice_def bob_def)

text \<open>
  C10, amended. For every profile update whose body has a truthy email:
  \<^verbatim>\<open>ProfileApi.put\<close> makes no lookup of its own for another holder of the email. If no
  other stored user holds it, the handler answers 200 and every row with the current
  user's primary key has that email afterwards. If another stored user holds it, the
  update is not committed (the commit raises \<^verbatim>\<open>IntegrityError\<close>) and nothing is
  stored. So the uniqueness of stored emails is kept by the profile update as it is by
  registration, by the schema and not by a check in the handler: a store the schema
  allows is left as a store the schema allows.
\<close>

theorem ProfileApi_put_email:
  assumes "map_of kvs ''email'' = Some v" and "truthy v"
  shows "((\<exists>r\<in>set (users s). u_id r \<noteq> u_id cu \<and> email r = v) \<longrightarrow>
            ProfileApi_put self s cu (JObj kvs) = Inl IntegrityError) \<and>
         (\<not> (\<exists>r\<in>set (users s). u_id r \<noteq> u_id cu \<and> email r = v) \<longrightarrow>
            (\<exists>resp u rows.
               ProfileApi_put self s cu (JObj kvs) = Inr (resp, s\<lparr>users := rows\<rparr>) \<and>
               status_code resp = 200 \<and> u_id u = u_id cu \<and> email u = v \<and>
               (\<forall>r\<in>set rows. u_id r = u_id cu \<longrightarrow> r = u) \<and>
               (cu \<in> set (users s) \<longrightarrow> u \<in> set rows))) \<and>
         (\<forall>resp s'. valid_store s \<and> ProfileApi_put self s cu (JObj kvs) = Inr (resp, s')
            \<longrightarrow> valid_store s') \<and>
         (\<forall>data resp s'. valid_store s \<and> RegistrationApi_post self s data = Inr (resp, s')
            \<longrightarrow> valid_store s')"
proof (intro conjI)
  define u where "u = cu\<lparr>first_name := (case supplied kvs ''first_name'' of None \<Rightarrow> first_name cu | Some v \<Rightarrow> v),
             last_name := (case supplied kvs ''last_name'' of None \<Rightarrow> last_name cu | Some v \<Rightarrow> v),
             email := (case supplied kvs ''email'' of None \<Rightarrow> email cu | Some v \<Rightarrow> v),
             password := (case supplied kvs ''password'' of None \<Rightarrow> password cu
                          | Some v \<Rightarrow> hash_password self v)\<rparr>"
  define rows where "rows = map (\<lambda>r. if u_id r = u_id cu then u else r) (users s)"
  define resp where "resp = \<lparr>body = [(''message'', JStr ''Profile successfully updated''),
                               (''user'', user_dict u)], status_code = 200\<rparr>"
  have i: "u_id u = u_id cu" by (simp add: u_def)
  from assms have "supplied kvs ''email'' = Some v" by (simp add: supplied_def)
  then have e: "email u = v" by (simp add: u_def)
  have p: "ProfileApi_put self s cu (JObj kvs) =
             (if email_taken u (users s) then Inl IntegrityError
              else Inr (resp, s\<lparr>users := rows\<rparr>))"
    using ProfileApi_put_JObj [of self s cu kvs] by (simp add: Let_def u_def rows_def resp_def)
  have t: "email_taken u (users s) \<longleftrightarrow> (\<exists>r\<in>set (users s). u_id r \<noteq> u_id cu \<and> email r = v)"
    by (simp add: email_taken_def i e)
  show "(\<exists>r\<in>set (users s). u_id r \<noteq> u_id cu \<and> email r = v) \<longrightarrow>
            ProfileApi_put self s cu (JObj kvs) = Inl IntegrityError"
    using p t by simp
  have w: "\<forall>r\<in>set rows. u_id r = u_id cu \<longrightarrow> r = u" "cu \<in> set (users s) \<longrightarrow> u \<in> set rows"
    unfolding rows_def using written_rows(1,2) [OF i] by blast+
  have r: "status_code resp = 200" by (simp add: resp_def)
  show "\<not> (\<exists>r\<in>set (users s). u_id r \<noteq> u_id cu \<and> email r = v) \<longrightarrow>
            (\<exists>resp u rows.
               ProfileApi_put self s cu (JObj kvs) = Inr (resp, s\<lparr>users := rows\<rparr>) \<and>
               status_code resp = 200 \<and> u_id u = u_id cu \<and> email u = v \<and>
               (\<forall>r\<in>set rows. u_id r = u_id cu \<longrightarrow> r = u) \<and>
               (cu \<in> set (users s) \<longrightarrow> u \<in> set rows))"
  proof
    assume "\<not> (\<exists>r\<in>set (users s). u_id r \<noteq> u_id cu \<and> email r = v)"
    with p t have "ProfileApi_put self s cu (JObj kvs) = Inr (resp, s\<lparr>users := rows\<rparr>)"
      by simp
    with r i e w show "\<exists>resp u rows.
               ProfileApi_put self s cu (JObj kvs) = Inr (resp, s\<lparr>users := rows\<rparr>) \<and>
               status_code resp = 200 \<and> u_id u = u_id cu \<and> email u = v \<and>
               (\<forall>r\<in>set rows. u_id r = u_id cu \<longrightarrow> r = u) \<and>
               (cu \<in> set (users s) \<longrightarrow> u \<in> set rows)"
      by blast
  qed
  show "\<forall>resp s'. valid_store s \<and> ProfileApi_put self s cu (JObj kvs) = Inr (resp, s')
            \<longrightarrow> valid_store s'"
    using ProfileApi_put_valid_store by blast
  show "\<forall>data resp s'. valid_store s \<and> RegistrationApi_post self s data = Inr (resp, s')
            \<longrightarrow> valid_store s'"
    using RegistrationApi_post_valid_store by blast
qed

theorem ProfileApi_put_email_witness:
  "map_of bob_takes_alice ''email'' = Some (JStr ''alice@example.org'') \<and>
   truthy (JStr ''alice@example.org'') \<and>
   (\<exists>r\<in>set (users demo_store). u_id r \<noteq> u_id bob \<and> email r = JStr ''alice@example.org'') \<and>
   ProfileApi_put demo_api demo_store bob (JObj bob_takes_alice) = Inl IntegrityError \<and>
   map_of bob_moves ''email'' = Some (JStr ''robert@example.org'') \<and>
   truthy (JStr ''robert@example.org'') \<and>
   \<not> (\<exists>r\<in>set (users demo_store). u_id r \<noteq> u_id bob \<and> email r = JStr ''robert@example.org'') \<and>
   bob \<in> set (users demo_store) \<and>
   (\<exists>resp u rows.
      ProfileApi_put demo_api demo_store bob (JObj bob_moves) =
        Inr (resp, demo_store\<lparr>users := rows\<rparr>) \<and>
      status_code resp = 200 \<and> email u = JStr ''robert@example.org'' \<and> u \<in> set rows) \<and>
   valid_store demo_store"
proof -
  have a: "map_of bob_takes_alice ''email'' = Some (JStr ''alice@example.org'')"
    and a': "map_of bob_moves ''email'' = Some (JStr ''robert@example.org'')"
    by (simp_all add: bob_takes_alice_def bob_moves_def)
  have t: "truthy (JStr ''alice@example.org'')" and t': "truthy (JStr ''robert@example.org'')"
    by simp_all
  have h: "\<exists>r\<in>set (users demo_store). u_id r \<noteq> u_id bob \<and> email r = JStr ''alice@example.org''"
    and h': "\<not> (\<exists>r\<in>set (users demo_store).
                  u_id r \<noteq> u_id bob \<and> email r = JStr ''robert@example.org'')"
    and m: "bob \<in> set (users demo_store)"
    and v: "valid_store demo_store"
    by (simp_all add: demo_store_def alice_def bob_def valid_store_def)
  have one: "ProfileApi_put demo_api demo_store bob (JObj bob_takes_alice) = Inl IntegrityError"
    using ProfileApi_put_email [OF a t, of demo_store bob demo_api] h by blast
  have two: "\<exists>resp u rows.
      ProfileApi_put demo_api demo_store bob (JObj bob_moves) =
        Inr (resp, demo_store\<lparr>users := rows\<rparr>) \<and>
      status_code resp = 200 \<and> email u = JStr ''robert@example.org'' \<and> u \<in> set rows"
    using ProfileApi_put_email [OF a' t', of demo_store bob demo_api] h' m by blast
  from a t h one a' t' h' m two v show ?thesis by blast
qed

subsection \<open>Missing fields\<close>

text \<open>
  C6. With \<^verbatim>\<open>check_data\<close> and \<^verbatim>\<open>bad_request\<close> as modelled from the spec: for every
  body from which the email or the password cannot be read (a dict without the key, or
  no dict at all), both \<^verbatim>\<open>RegistrationApi.post\<close> and \<^verbatim>\<open>LoginApi.post\<close> return the
  invalid-form response, status 400 with the message \<^verbatim>\<open>Unvalid form submitted\<close>, and
  the store is unchanged; no user row is added.
\<close>

theorem missing_field_bad_request:
  assumes "check_data self = BaseResource_check_data"
    and "bad_request self = BaseResource_bad_request"
    and "\<not> (\<exists>em pw. py_getitem data ''email'' = Inr em \<and> py_getitem data ''password'' = Inr pw)"
  shows "RegistrationApi_post self s data = Inr (BaseResource_bad_request, s) \<and>
         LoginApi_post self s data = Inr (BaseResource_bad_request, s) \<and>
         body BaseResource_bad_request = [(''message'', JStr ''Unvalid form submitted'')] \<and>
         status_code BaseResource_bad_request = 400"
proof -
  have "\<not> BaseResource_check_data data [''password'', ''email'']"
    and "\<not> BaseResource_check_data data [''email'', ''password'']"
    using assms(3) by (cases data; auto simp: BaseResource_check_data_def split: option.splits)+
  with assms(1,2) show ?thesis
    by (simp add: RegistrationApi_post_def LoginApi_post_def BaseResource_bad_request_def)
qed

theorem missing_field_bad_request_witness:
  "check_data demo_api = BaseResource_check_data \<and>
   bad_request demo_api = BaseResource_bad_request \<and>
   \<not> (\<exists>em pw. py_getitem no_password ''email'' = Inr em \<and>
               py_getitem no_password ''password'' = Inr pw) \<and>
   RegistrationApi_post demo_api demo_store no_password = Inr (BaseResource_bad_request, demo_store) \<and>
   LoginApi_post demo_api demo_store no_password = Inr (BaseResource_bad_request, demo_store)"
proof -
  have a: "check_data demo_api = BaseResource_check_data"
    and b: "bad_request demo_api = BaseResource_bad_request"
    by (simp_all add: demo_api_def)
  have c: "\<not> (\<exists>em pw. py_getitem no_password ''email'' = Inr em \<and>
               py_getitem no_password ''password'' = Inr pw)"
    by (simp add: no_password_def)
  from missing_field_bad_request [OF a b c, of demo_store] a b c show ?thesis by blast
qed

subsection \<open>Revocation\<close>




end
